theory Spec2Isabelle
  imports Main "HOL-Library.Char_ord" "HOL-Library.List_Lexorder" "HOL-Library.Sublist"
    "HOL-Library.Multiset"
begin

section \<open>Errors of the build\<close>

text \<open>
  Every \<^verbatim>\<open>sys.exit\<close>, failing \<^verbatim>\<open>assert\<close> and uncaught exception of
  \<^verbatim>\<open>constructor/fcp.py\<close> and \<^verbatim>\<open>constructor/shar.py\<close> is a value of this type; a
  function that can abort returns \<open>error + 'a\<close>, with \<open>Inl\<close> for the abort.
\<close>

datatype error =
    NoPackages                        \<comment> \<open>\<^verbatim>\<open>sys.exit('Error: no packages specified')\<close>\<close>
  | ListedMultipleTimes string "string list"
                                      \<comment> \<open>\<^verbatim>\<open>sys.exit("Error: '%s' listed multiple times: %s")\<close>\<close>
  | AssertionError                    \<comment> \<open>a failing \<^verbatim>\<open>assert\<close>\<close>
  | CouldNotParse string              \<comment> \<open>\<^verbatim>\<open>sys.exit("Error: Could not parse: %s")\<close>\<close>
  | NoPackageInUrl string string      \<comment> \<open>\<^verbatim>\<open>sys.exit("Error: no package '%s' in %s")\<close>\<close>
  | MD5Mismatch string                \<comment> \<open>\<^verbatim>\<open>sys.exit("Error: MD5 sum for '%s' does not match ...")\<close>\<close>
  | KeyError string                   \<comment> \<open>an uncaught dictionary lookup of a missing key\<close>
  | NameError string                  \<comment> \<open>an unbound name\<close>
  | ValueError                        \<comment> \<open>unpacking a sequence of the wrong length\<close>
  | ExternalError string              \<comment> \<open>an exception raised by an injected capability\<close>
  | FileNotFoundError string          \<comment> \<open>opening or measuring a file that does not exist\<close>
  | OSError                           \<comment> \<open>a write that the operating system refuses\<close>

section \<open>The package set (\<^verbatim>\<open>fcp.py\<close>)\<close>

text \<open>
  The working set \<^verbatim>\<open>dists\<close> is a list of distribution file names. \<^verbatim>\<open>name_dist\<close> is
  imported from \<^verbatim>\<open>constructor.install\<close>; every function below takes it as the
  parameter \<open>nd\<close>.
\<close>

subsection \<open>\<^verbatim>\<open>check_duplicates\<close>\<close>

text \<open>
  \<^verbatim>\<open>map_name[name_dist(fn)].append(fn)\<close> on a \<^verbatim>\<open>defaultdict(list)\<close>: the dictionary is
  an association list in insertion order of its keys.
\<close>

fun append_entry :: "string \<Rightarrow> string \<Rightarrow> (string \<times> string list) list \<Rightarrow> (string \<times> string list) list" where
  "append_entry k fn [] = [(k, [fn])]"
| "append_entry k fn ((k', fs) # m) =
     (if k = k' then (k', fs @ [fn]) # m else (k', fs) # append_entry k fn m)"

definition map_name :: "(string \<Rightarrow> string) \<Rightarrow> string list \<Rightarrow> (string \<times> string list) list" where
  "map_name nd dists = foldl (\<lambda>m fn. append_entry (nd fn) fn m) [] dists"

definition check_duplicates :: "(string \<Rightarrow> string) \<Rightarrow> string list \<Rightarrow> error + unit" where
  "check_duplicates nd dists =
     (case find (\<lambda>(name, files). length files > 1) (map_name nd dists) of
        Some (name, files) \<Rightarrow> Inl (ListedMultipleTimes name files)
      | None \<Rightarrow> Inr ())"

subsection \<open>\<^verbatim>\<open>move_python_first\<close>\<close>

text \<open>
  The loop stops at the first distribution named python; \<^verbatim>\<open>dists.remove(dist)\<close> removes
  the first element equal to it, \<^verbatim>\<open>dists.insert(0, dist)\<close> puts it in front.
\<close>

definition move_python_first :: "(string \<Rightarrow> string) \<Rightarrow> string list \<Rightarrow> string list" where
  "move_python_first nd dists =
     (case find (\<lambda>dist. nd dist = ''python'') dists of
        Some dist \<Rightarrow> dist # remove1 dist dists
      | None \<Rightarrow> dists)"

subsection \<open>\<^verbatim>\<open>check_dists\<close>\<close>

definition check_dists :: "(string \<Rightarrow> string) \<Rightarrow> string list \<Rightarrow> error + unit" where
  "check_dists nd dists =
     (if length dists = 0 then Inl NoPackages
      else case check_duplicates nd dists of
        Inl e \<Rightarrow> Inl e
      | Inr _ \<Rightarrow> if nd (dists ! 0) = ''python'' then Inr () else Inl AssertionError)"

subsection \<open>The finalization steps of \<^verbatim>\<open>main\<close>\<close>

text \<open>
  Lines 210 to 221 of \<^verbatim>\<open>main\<close>: \<^verbatim>\<open>dists.sort()\<close> unless
  \<^verbatim>\<open>install_in_dependency_order\<close> is set, \<^verbatim>\<open>move_python_first()\<close>, then
  \<^verbatim>\<open>check_dists()\<close>. The menu-package warning and \<^verbatim>\<open>show\<close> in between only print.
  \<open>order_dists\<close> is the list that lines 210 to 212 leave in \<^verbatim>\<open>dists\<close>; the result of
  \<open>finalize\<close> is that list once \<^verbatim>\<open>check_dists\<close> has accepted it.
\<close>

definition order_dists :: "bool \<Rightarrow> (string \<Rightarrow> string) \<Rightarrow> string list \<Rightarrow> string list" where
  "order_dists dependency_order nd dists =
     move_python_first nd (if \<not> dependency_order then sort dists else dists)"

definition finalize :: "bool \<Rightarrow> (string \<Rightarrow> string) \<Rightarrow> string list \<Rightarrow> error + string list" where
  "finalize dependency_order nd dists =
     (case check_dists nd (order_dists dependency_order nd dists) of
        Inl e \<Rightarrow> Inl e
      | Inr _ \<Rightarrow> Inr (order_dists dependency_order nd dists))"

text \<open>
  For concrete runs: the logical name of a file name \<^verbatim>\<open>name-version-build.ext\<close> is the
  text before its last two dashes (\<^verbatim>\<open>rsplit('-', 2)[0]\<close>).
\<close>

definition rsplit_dash :: "string \<Rightarrow> string" where
  "rsplit_dash s = (if CHR ''-'' \<in> set s then rev (tl (dropWhile (\<lambda>c. c \<noteq> CHR ''-'') (rev s))) else s)"

definition name_dist :: "string \<Rightarrow> string" where
  "name_dist dist = rsplit_dash (rsplit_dash dist)"

section \<open>Python strings\<close>

text \<open>
  A Python \<^verbatim>\<open>str\<close> is a sequence of code points and \<^verbatim>\<open>len\<close> counts code points. A
  \<^typ>\<open>string\<close> here is that sequence, for text whose code points lie in U+0000 to U+00FF;
  \<^const>\<open>length\<close> is \<^verbatim>\<open>len\<close>.
\<close>

text \<open>
  \<^verbatim>\<open>s.replace(old, new)\<close>: the occurrences of \<^verbatim>\<open>old\<close> are found from the left and do
  not overlap. With an empty \<^verbatim>\<open>old\<close>, Python puts \<^verbatim>\<open>new\<close> before every character and
  at the end.
\<close>

function replace :: "string \<Rightarrow> string \<Rightarrow> string \<Rightarrow> string" where
  "replace s old new =
     (if old = [] then new @ concat (map (\<lambda>c. c # new) s)
      else if s = [] then []
      else if prefix old s then new @ replace (drop (length old) s) old new
      else hd s # replace (tl s) old new)"
  by pat_completeness auto
termination
  by (relation "measure (\<lambda>(s, old, new). length s)") auto

declare replace.simps [simp del]

text \<open>\<^verbatim>\<open>s.count(sub)\<close> for a non-empty \<^verbatim>\<open>sub\<close>: the occurrences that \<^verbatim>\<open>replace\<close> replaces.\<close>

function count_str :: "string \<Rightarrow> string \<Rightarrow> nat" where
  "count_str s sub =
     (if sub = [] then length s + 1
      else if s = [] then 0
      else if prefix sub s then 1 + count_str (drop (length sub) s) sub
      else count_str (tl s) sub)"
  by pat_completeness auto
termination
  by (relation "measure (\<lambda>(s, sub). length s)") auto

declare count_str.simps [simp del]

text \<open>
  \<^verbatim>\<open>str.isspace\<close>, which is also the class \<^verbatim>\<open>\s\<close> of \<^verbatim>\<open>re\<close> on \<^verbatim>\<open>str\<close> patterns, on the
  code points up to U+00FF: tab to carriage return, the four separators U+001C to U+001F,
  space, U+0085 and U+00A0.
\<close>

definition isspace :: "char \<Rightarrow> bool" where
  "isspace c = ((of_char c :: nat) \<in> {9, 10, 11, 12, 13, 28, 29, 30, 31, 32, 133, 160})"

definition strip :: "string \<Rightarrow> string" where
  "strip s = rev (dropWhile isspace (rev (dropWhile isspace s)))"

section \<open>Explicit package lines (\<^verbatim>\<open>fcp.py\<close>)\<close>

subsection \<open>\<^verbatim>\<open>url_pat\<close>\<close>

text \<open>
  The pattern, compiled with \<^verbatim>\<open>re.VERBOSE\<close> and applied with \<^verbatim>\<open>match\<close> (anchored at the
  start of the line):
  \<^verbatim>\<open>(?P<url>\S+/)?  (?P<fn>[^\s#/]+)  ([#](?P<md5>[0-9a-f]{32}))?  $\<close>
  The matcher below backtracks as \<^verbatim>\<open>re\<close> does: every repetition is greedy and gives back
  one character at a time, an optional group is tried before it is skipped.
\<close>

text \<open>\<^verbatim>\<open>$\<close> without \<^verbatim>\<open>re.MULTILINE\<close>: the end of the string, or just before a final newline.\<close>

definition match_eol :: "string \<Rightarrow> bool" where
  "match_eol rest = (rest = [] \<or> rest = [CHR 0x0A])"

definition hex_digit :: "char \<Rightarrow> bool" where
  "hex_digit c = ((CHR ''0'' \<le> c \<and> c \<le> CHR ''9'') \<or> (CHR ''a'' \<le> c \<and> c \<le> CHR ''f''))"

text \<open>\<^verbatim>\<open>([#](?P<md5>[0-9a-f]{32}))?$\<close>: the result is the group \<^verbatim>\<open>md5\<close>, \<open>None\<close> when skipped.\<close>

definition match_md5 :: "string \<Rightarrow> string option option" where
  "match_md5 rest =
     (if rest \<noteq> [] \<and> hd rest = CHR ''#'' \<and> length (take 32 (tl rest)) = 32
         \<and> list_all hex_digit (take 32 (tl rest)) \<and> match_eol (drop 32 (tl rest))
      then Some (Some (take 32 (tl rest)))
      else if match_eol rest then Some None
      else None)"

definition fn_char :: "char \<Rightarrow> bool" where
  "fn_char c = (\<not> isspace c \<and> c \<noteq> CHR ''#'' \<and> c \<noteq> CHR ''/'')"

text \<open>
  \<^verbatim>\<open>(?P<fn>[^\s#/]+)\<close> followed by the rest of the pattern: \<open>try_fn k\<close> tries the file
  name of \<open>k\<close> characters, then the shorter ones down to one character.
\<close>

fun try_fn :: "nat \<Rightarrow> string \<Rightarrow> (string \<times> string option) option" where
  "try_fn 0 rest = None"
| "try_fn (Suc k) rest =
     (case match_md5 (drop (Suc k) rest) of
        Some md5 \<Rightarrow> Some (take (Suc k) rest, md5)
      | None \<Rightarrow> try_fn k rest)"

definition match_fn :: "string \<Rightarrow> (string \<times> string option) option" where
  "match_fn rest = try_fn (length (takeWhile fn_char rest)) rest"

text \<open>
  \<^verbatim>\<open>(?P<url>\S+/)?\<close> followed by the rest of the pattern: \<open>try_url j\<close> tries \<^verbatim>\<open>\S+\<close> on
  \<open>j\<close> characters with a slash after them, then on fewer, down to one; \<open>try_url 0\<close> skips
  the group.
\<close>

fun try_url :: "nat \<Rightarrow> string \<Rightarrow> (string option \<times> string \<times> string option) option" where
  "try_url 0 line =
     (case match_fn line of
        Some (fn, md5) \<Rightarrow> Some (None, fn, md5)
      | None \<Rightarrow> None)"
| "try_url (Suc j) line =
     (if Suc j < length line \<and> line ! Suc j = CHR ''/'' then
        (case match_fn (drop (Suc (Suc j)) line) of
           Some (fn, md5) \<Rightarrow> Some (Some (take (Suc (Suc j)) line), fn, md5)
         | None \<Rightarrow> try_url j line)
      else try_url j line)"

definition url_pat_match :: "string \<Rightarrow> (string option \<times> string \<times> string option) option" where
  "url_pat_match line = try_url (length (takeWhile (\<lambda>c. \<not> isspace c) line)) line"

subsection \<open>\<^verbatim>\<open>parse_packages\<close>\<close>

text \<open>
  The body of the loop for one line: \<open>Inr None\<close> is \<^verbatim>\<open>continue\<close>, \<open>Inr (Some t)\<close> is
  \<^verbatim>\<open>yield t\<close> with \<^verbatim>\<open>t = (url, fn, md5)\<close>, \<open>Inl\<close> is \<^verbatim>\<open>sys.exit\<close>.
\<close>

definition parse_line :: "string \<Rightarrow> error + (string option \<times> string \<times> string option) option" where
  "parse_line line0 =
     (let line = strip line0 in
      if line = [] \<or> prefix ''#'' line \<or> prefix ''@'' line then Inr None
      else case url_pat_match line of
        None \<Rightarrow> Inl (CouldNotParse line)
      | Some (url, fn0, md5) \<Rightarrow>
          (let fn1 = replace fn0 ''='' ''-'';
               fn2 = (if \<not> suffix ''.tar.bz2'' fn1 then fn1 @ ''.tar.bz2'' else fn1)
           in Inr (Some (url, fn2, md5))))"

text \<open>
  The generator run to its end: the list of the tuples it yields, or the exit at the
  first line that does not parse.
\<close>

fun parse_packages :: "string list \<Rightarrow> error + (string option \<times> string \<times> string option) list" where
  "parse_packages [] = Inr []"
| "parse_packages (line # lines) =
     (case parse_line line of
        Inl e \<Rightarrow> Inl e
      | Inr None \<Rightarrow> parse_packages lines
      | Inr (Some t) \<Rightarrow>
          (case parse_packages lines of Inl e \<Rightarrow> Inl e | Inr ts \<Rightarrow> Inr (t # ts)))"

subsection \<open>The grammar of a package line\<close>





section \<open>The header (\<^verbatim>\<open>shar.py\<close>)\<close>

subsection \<open>Decimal formatting\<close>

text \<open>\<^verbatim>\<open>str(n)\<close> for an integer that is not negative.\<close>

definition digit_char :: "nat \<Rightarrow> char" where
  "digit_char d = char_of (48 + d)"

function str_nat :: "nat \<Rightarrow> string" where
  "str_nat n = (if n < 10 then [digit_char n] else str_nat (n div 10) @ [digit_char (n mod 10)])"
  by pat_completeness auto
termination
  by (relation "measure (\<lambda>n. n)") auto

declare str_nat.simps [simp del]

text \<open>
  \<^verbatim>\<open>'%0wd' % n\<close> for an integer that is not negative: padded with zeros on the left to
  \<open>w\<close> characters, and longer than \<open>w\<close> when \<open>n\<close> has more than \<open>w\<close> digits.
\<close>

definition zero_pad :: "nat \<Rightarrow> nat \<Rightarrow> string" where
  "zero_pad w n = replicate (w - length (str_nat n)) CHR ''0'' @ str_nat n"

subsection \<open>\<^verbatim>\<open>get_header\<close>, lines 65 to 80\<close>










section \<open>Writing the installer (\<^verbatim>\<open>shar.py\<close>, \<^verbatim>\<open>create\<close>, lines 168 to 183)\<close>

subsection \<open>Files\<close>

text \<open>
  The file system is a map from paths to contents and a map from paths to permission
  bits. In the content of a file a \<^typ>\<open>char\<close> is a byte.
\<close>

type_synonym byte = char

record filesystem =
  files :: "string \<rightharpoonup> byte list"
  modes :: "string \<rightharpoonup> nat"


text \<open>
  \<^verbatim>\<open>header.encode('utf-8')\<close> on code points up to U+00FF: one byte below U+0080, two
  bytes from there on.
\<close>

definition is_ascii :: "char \<Rightarrow> bool" where
  "is_ascii c = ((of_char c :: nat) < 128)"

definition utf8_char :: "char \<Rightarrow> byte list" where
  "utf8_char c =
     (if is_ascii c then [c]
      else [char_of (192 + (of_char c :: nat) div 64), char_of (128 + (of_char c :: nat) mod 64)])"

definition encode_utf8 :: "string \<Rightarrow> byte list" where
  "encode_utf8 s = concat (map utf8_char s)"


text \<open>\<^verbatim>\<open>fi.read(262144)\<close> at position \<open>pos\<close> of the file at \<open>path\<close>.\<close>

definition fi_read :: "filesystem \<Rightarrow> string \<Rightarrow> nat \<Rightarrow> byte list" where
  "fi_read fs path pos =
     take 262144 (drop pos (case files fs path of None \<Rightarrow> [] | Some content \<Rightarrow> content))"







subsection \<open>The end of \<^verbatim>\<open>create\<close>\<close>


section \<open>Fetching the packages (\<^verbatim>\<open>fcp.py\<close>, \<^verbatim>\<open>fetch\<close>)\<close>

text \<open>
  \<^verbatim>\<open>fetch\<close> creates the download directory when it is missing, and then works on the
  files in it.
\<close>

text \<open>
  An entry of a channel index is a dictionary; \<^verbatim>\<open>fetch\<close> reads its keys \<^verbatim>\<open>channel\<close>
  and \<^verbatim>\<open>md5\<close>, the fields \<open>pkg_channel\<close> and \<open>pkg_md5\<close> here.
\<close>

record pkginfo =
  pkg_channel :: string
  pkg_md5 :: string

text \<open>
  The state that \<^verbatim>\<open>fetch\<close> changes: the global \<^verbatim>\<open>index\<close> (an entry is updated in
  place when a slash is added to its channel), the download directory (for every file
  name in it the value of \<^verbatim>\<open>md5_file\<close>; \<open>None\<close> where \<^verbatim>\<open>isfile\<close> is false), the list
  \<^verbatim>\<open>info['_urls']\<close>, and the record of the calls of \<^verbatim>\<open>fetch_pkg\<close>: the distributions it
  was called for, in order.
\<close>

record fetch_state =
  index :: "string \<rightharpoonup> pkginfo"
  cache :: "string \<rightharpoonup> string"
  info_urls :: "(string \<times> string) list"
  fetched :: "string list"

text \<open>
  The capabilities are parameters: \<^verbatim>\<open>filename_dist\<close> of \<^verbatim>\<open>constructor.utils\<close>,
  \<^verbatim>\<open>fetch_index\<close> (for one channel URL, the index or an exception) and \<^verbatim>\<open>fetch_pkg\<close>
  (for an index entry and a file name, the download directory after the call, and an
  exception if it raised). The dictionaries \<^verbatim>\<open>urls\<close> and \<^verbatim>\<open>md5s\<close> are read with
  \<^verbatim>\<open>get\<close>: \<open>None\<close> stands for a missing key and for the value \<^verbatim>\<open>None\<close>.
\<close>

type_synonym fetch_index = "string \<Rightarrow> error + (string \<rightharpoonup> pkginfo)"
type_synonym fetch_pkg = "pkginfo \<Rightarrow> string \<Rightarrow> (string \<rightharpoonup> string) \<Rightarrow> (error + unit) \<times> (string \<rightharpoonup> string)"

text \<open>The truth value of \<^verbatim>\<open>url\<close> and of \<^verbatim>\<open>md5\<close> in a condition.\<close>

definition truthy :: "string option \<Rightarrow> bool" where
  "truthy v = (case v of None \<Rightarrow> False | Some s \<Rightarrow> s \<noteq> [])"

text \<open>Lines 166 to 173: the authoritative record of a distribution.\<close>

definition lookup_pkginfo ::
  "fetch_index \<Rightarrow> (string \<rightharpoonup> string) \<Rightarrow> string \<Rightarrow> (string \<rightharpoonup> pkginfo) \<Rightarrow> error + pkginfo" where
  "lookup_pkginfo fetch_index urls dist idx =
     (if truthy (urls dist) then
        (case fetch_index (the (urls dist)) of
           Inl e \<Rightarrow> Inl e
         | Inr url_index \<Rightarrow>
             (case url_index dist of
                None \<Rightarrow> Inl (NoPackageInUrl dist (the (urls dist)))
              | Some p \<Rightarrow> Inr p))
      else
        (case idx dist of
           None \<Rightarrow> Inl (KeyError dist)
         | Some p \<Rightarrow> Inr p))"

text \<open>Lines 175 and 176.\<close>

definition with_slash :: "pkginfo \<Rightarrow> pkginfo" where
  "with_slash p = (if \<not> suffix ''/'' (pkg_channel p) then p\<lparr>pkg_channel := pkg_channel p @ ''/''\<rparr> else p)"

text \<open>
  The body of the loop for one distribution. The result is the outcome (\<open>Inl\<close> for
  \<^verbatim>\<open>sys.exit\<close> or an exception) and the state at that point.
\<close>

definition fetch_dist ::
  "(string \<Rightarrow> string) \<Rightarrow> fetch_index \<Rightarrow> fetch_pkg \<Rightarrow> (string \<rightharpoonup> string) \<Rightarrow> (string \<rightharpoonup> string)
     \<Rightarrow> string \<Rightarrow> fetch_state \<Rightarrow> (error + unit) \<times> fetch_state" where
  "fetch_dist filename_dist fetch_index fetch_pkg urls md5s dist st =
     (let fn = filename_dist dist in
      case lookup_pkginfo fetch_index urls dist (index st) of
        Inl e \<Rightarrow> (Inl e, st)
      | Inr p0 \<Rightarrow>
          (let p = with_slash p0;
               st1 = (if truthy (urls dist) then st else st\<lparr>index := (index st)(dist \<mapsto> p)\<rparr>)
           in if \<not> suffix ''/'' (pkg_channel p) then (Inl AssertionError, st1)
              else
                (let st2 = st1\<lparr>info_urls := info_urls st1 @ [(pkg_channel p @ fn, pkg_md5 p)]\<rparr>
                 in if truthy (md5s dist) \<and> the (md5s dist) \<noteq> pkg_md5 p then (Inl (MD5Mismatch fn), st2)
                    else if cache st2 fn = Some (pkg_md5 p) then (Inr (), st2)
                    else
                      (case fetch_pkg p fn (cache st2) of
                         (r, cache') \<Rightarrow>
                           (r, st2\<lparr>cache := cache', fetched := fetched st2 @ [dist]\<rparr>)))))"

text \<open>The loop over \<^verbatim>\<open>dists\<close>, and \<^verbatim>\<open>fetch\<close>, which first empties \<^verbatim>\<open>info['_urls']\<close>.\<close>

fun fetch_loop ::
  "(string \<Rightarrow> string) \<Rightarrow> fetch_index \<Rightarrow> fetch_pkg \<Rightarrow> (string \<rightharpoonup> string) \<Rightarrow> (string \<rightharpoonup> string)
     \<Rightarrow> string list \<Rightarrow> fetch_state \<Rightarrow> (error + unit) \<times> fetch_state" where
  "fetch_loop filename_dist fetch_index fetch_pkg urls md5s [] st = (Inr (), st)"
| "fetch_loop filename_dist fetch_index fetch_pkg urls md5s (dist # dists) st =
     (case fetch_dist filename_dist fetch_index fetch_pkg urls md5s dist st of
        (Inl e, st') \<Rightarrow> (Inl e, st')
      | (Inr _, st') \<Rightarrow> fetch_loop filename_dist fetch_index fetch_pkg urls md5s dists st')"

definition fetch ::
  "(string \<Rightarrow> string) \<Rightarrow> fetch_index \<Rightarrow> fetch_pkg \<Rightarrow> (string \<rightharpoonup> string) \<Rightarrow> (string \<rightharpoonup> string)
     \<Rightarrow> string list \<Rightarrow> fetch_state \<Rightarrow> (error + unit) \<times> fetch_state" where
  "fetch filename_dist fetch_index fetch_pkg urls md5s dists st =
     fetch_loop filename_dist fetch_index fetch_pkg urls md5s dists (st\<lparr>info_urls := []\<rparr>)"

text \<open>
  For concrete runs: an index with two packages, a download directory that already holds
  the second one, a \<^verbatim>\<open>fetch_index\<close> without network and a \<^verbatim>\<open>fetch_pkg\<close> that stores a
  file with the checksum of its index entry.
\<close>

definition example_state :: fetch_state where
  "example_state =
     \<lparr>index = [''a-1-0.tar.bz2'' \<mapsto> \<lparr>pkg_channel = ''http://c/linux-64'', pkg_md5 = ''aaaa''\<rparr>,
               ''b-1-0.tar.bz2'' \<mapsto> \<lparr>pkg_channel = ''http://c/linux-64/'', pkg_md5 = ''bbbb''\<rparr>],
      cache = [''b-1-0.tar.bz2'' \<mapsto> ''bbbb''],
      info_urls = [],
      fetched = []\<rparr>"

definition offline :: fetch_index where
  "offline url = Inl (ExternalError ''offline'')"

definition store_pkg :: fetch_pkg where
  "store_pkg p fn dir = (Inr (), dir(fn \<mapsto> pkg_md5 p))"

section \<open>Local repodata in the master tarball (\<^verbatim>\<open>shar.py\<close>)\<close>

subsection \<open>Data\<close>

text \<open>
  The two dictionaries of a repodata document that \<^verbatim>\<open>create\<close> reads and builds, from
  file names to package entries (an entry is kept as text), and the document that
  \<^verbatim>\<open>add_repodata\<close> dumps.
\<close>

record fn_dict =
  packages :: "string \<rightharpoonup> string"
  packages_conda :: "string \<rightharpoonup> string"

record repodata_doc =
  info_subdir :: string
  doc_packages :: "string \<rightharpoonup> string"
  doc_packages_conda :: "string \<rightharpoonup> string"
  removed :: "string list"
  repodata_version :: nat

text \<open>
  A member of the tar archive \<^verbatim>\<open>t\<close> is an archive name with its content: a file of the
  file system, given by its path, or a repodata document.
\<close>

datatype member = File string | Document repodata_doc

text \<open>
  The state of this part of \<^verbatim>\<open>create\<close>: the members added to \<^verbatim>\<open>t\<close> so far, and the
  content of the file \<^verbatim>\<open>repodata.json\<close> of the working directory.
\<close>

record assembly =
  archive :: "(string \<times> member) list"
  cwd_repodata :: "repodata_doc option"

subsection \<open>\<^verbatim>\<open>add_repodata\<close>\<close>

text \<open>
  \<^verbatim>\<open>add_repodata(fn_dict, subdir)\<close> dumps the document into \<^verbatim>\<open>repodata.json\<close> and then
  evaluates \<^verbatim>\<open>t.add(...)\<close>. The name \<^verbatim>\<open>t\<close> is a local variable of \<^verbatim>\<open>create\<close>; it is
  neither a parameter or local variable of \<^verbatim>\<open>add_repodata\<close> nor a name of the module, so
  the lookup raises \<^verbatim>\<open>NameError\<close> and nothing is added to the archive.
\<close>

definition add_repodata :: "fn_dict \<Rightarrow> string \<Rightarrow> assembly \<Rightarrow> (error + unit) \<times> assembly" where
  "add_repodata d subdir st =
     (Inl (NameError ''t''),
      st\<lparr>cwd_repodata :=
           Some \<lparr>info_subdir = subdir, doc_packages = packages d,
                 doc_packages_conda = packages_conda d, removed = [], repodata_version = 1\<rparr>\<rparr>)"

subsection \<open>\<^verbatim>\<open>create\<close>, lines 141 to 166\<close>

text \<open>\<^verbatim>\<open>url.rsplit('/', 2)\<close> unpacked into three names.\<close>

definition rsplit_slash :: "string \<Rightarrow> (string \<times> string) option" where
  "rsplit_slash s =
     (if CHR ''/'' \<in> set s
      then Some (rev (tl (dropWhile (\<lambda>c. c \<noteq> CHR ''/'') (rev s))),
                 rev (takeWhile (\<lambda>c. c \<noteq> CHR ''/'') (rev s)))
      else None)"

definition rsplit2 :: "string \<Rightarrow> error + (string \<times> string \<times> string)" where
  "rsplit2 url =
     (case rsplit_slash url of
        None \<Rightarrow> Inl ValueError
      | Some (rest, fn) \<Rightarrow>
          (case rsplit_slash rest of
             None \<Rightarrow> Inl ValueError
           | Some (front, subdir) \<Rightarrow> Inr (front, subdir, fn)))"

text \<open>\<^verbatim>\<open>os.path.join\<close> of two components.\<close>

definition path_join :: "string \<Rightarrow> string \<Rightarrow> string" where
  "path_join a b =
     (if prefix ''/'' b then b
      else if a = [] \<or> suffix ''/'' a then a @ b
      else a @ ''/'' @ b)"

text \<open>
  \<^verbatim>\<open>local_subdir_repodata\<close> is a dictionary in insertion order: an association list,
  read with \<^const>\<open>map_of\<close> and assigned with \<open>dict_set\<close>.
\<close>

fun dict_set :: "string \<Rightarrow> fn_dict \<Rightarrow> (string \<times> fn_dict) list \<Rightarrow> (string \<times> fn_dict) list" where
  "dict_set k v [] = [(k, v)]"
| "dict_set k v ((k', v') # m) = (if k = k' then (k', v) # m else (k', v') # dict_set k v m)"

definition empty_fn_dict :: fn_dict where
  "empty_fn_dict = \<lparr>packages = Map.empty, packages_conda = Map.empty\<rparr>"

text \<open>
  Lines 149 to 157: the entry of the artifact \<open>fn\<close> is copied from the loaded repodata
  into the dictionary of its subdir.
\<close>

definition add_local_entry ::
  "fn_dict \<Rightarrow> string \<Rightarrow> string \<Rightarrow> (string \<times> fn_dict) list \<Rightarrow> error + (string \<times> fn_dict) list" where
  "add_local_entry repodata subdir fn local_subdir_repodata =
     (let local_dir = (case map_of local_subdir_repodata subdir of
                         None \<Rightarrow> empty_fn_dict
                       | Some d \<Rightarrow> d)
      in if suffix ''.conda'' fn then
           (case packages_conda repodata fn of
              None \<Rightarrow> Inl (KeyError fn)
            | Some entry \<Rightarrow>
                Inr (dict_set subdir
                       (local_dir\<lparr>packages_conda := (packages_conda local_dir)(fn \<mapsto> entry)\<rparr>)
                       local_subdir_repodata))
         else
           (case packages repodata fn of
              None \<Rightarrow> Inl (KeyError fn)
            | Some entry \<Rightarrow>
                Inr (dict_set subdir
                       (local_dir\<lparr>packages := (packages local_dir)(fn \<mapsto> entry)\<rparr>)
                       local_subdir_repodata)))"

text \<open>
  The body of the loop of line 142 for one URL of \<^verbatim>\<open>info['_urls']\<close>. \<open>load\<close> stands for
  \<^verbatim>\<open>open\<close> and \<^verbatim>\<open>json.load\<close> on the repodata file beside the artifact.
\<close>

definition local_repodata_step ::
  "(string \<Rightarrow> error + fn_dict) \<Rightarrow> string \<Rightarrow> string \<Rightarrow> (string \<times> fn_dict) list \<Rightarrow> assembly
     \<Rightarrow> (error + (string \<times> fn_dict) list) \<times> assembly" where
  "local_repodata_step load download_dir url local_subdir_repodata st =
     (if prefix ''file://'' url then
        (case rsplit2 url of
           Inl e \<Rightarrow> (Inl e, st)
         | Inr (_, subdir, fn) \<Rightarrow>
             (let st1 = st\<lparr>archive := archive st
                          @ [(''conda-bld'' @ ''/'' @ subdir @ ''/'' @ fn, File (path_join download_dir fn))]\<rparr>
              in case load (replace (replace url ''file://'' []) fn ''repodata.json'') of
                   Inl e \<Rightarrow> (Inl e, st1)
                 | Inr repodata \<Rightarrow> (add_local_entry repodata subdir fn local_subdir_repodata, st1)))
      else (Inr local_subdir_repodata, st))"

fun local_repodata_loop ::
  "(string \<Rightarrow> error + fn_dict) \<Rightarrow> string \<Rightarrow> string list \<Rightarrow> (string \<times> fn_dict) list \<Rightarrow> assembly
     \<Rightarrow> (error + (string \<times> fn_dict) list) \<times> assembly" where
  "local_repodata_loop load download_dir [] local_subdir_repodata st = (Inr local_subdir_repodata, st)"
| "local_repodata_loop load download_dir (url # urls) local_subdir_repodata st =
     (case local_repodata_step load download_dir url local_subdir_repodata st of
        (Inl e, st') \<Rightarrow> (Inl e, st')
      | (Inr d, st') \<Rightarrow> local_repodata_loop load download_dir urls d st')"

text \<open>The loop of line 160, with the flag \<^verbatim>\<open>has_noarch\<close>.\<close>

fun repodata_loop :: "(string \<times> fn_dict) list \<Rightarrow> bool \<Rightarrow> assembly \<Rightarrow> (error + bool) \<times> assembly" where
  "repodata_loop [] has_noarch st = (Inr has_noarch, st)"
| "repodata_loop ((subdir, d) # items) has_noarch st =
     (let has_noarch' = (if \<not> has_noarch \<and> subdir = ''noarch'' then True else has_noarch)
      in case add_repodata d subdir st of
           (Inl e, st') \<Rightarrow> (Inl e, st')
         | (Inr _, st') \<Rightarrow> repodata_loop items has_noarch' st')"

text \<open>
  Lines 141 to 166 for the URLs of \<^verbatim>\<open>info['_urls']\<close>; the archive \<^verbatim>\<open>t\<close> is closed at the
  end.
\<close>

definition create_repodata ::
  "(string \<Rightarrow> error + fn_dict) \<Rightarrow> string \<Rightarrow> string list \<Rightarrow> assembly \<Rightarrow> (error + unit) \<times> assembly" where
  "create_repodata load download_dir urls st =
     (case local_repodata_loop load download_dir urls [] st of
        (Inl e, st1) \<Rightarrow> (Inl e, st1)
      | (Inr local_subdir_repodata, st1) \<Rightarrow>
          (case repodata_loop local_subdir_repodata False st1 of
             (Inl e, st2) \<Rightarrow> (Inl e, st2)
           | (Inr has_noarch, st2) \<Rightarrow>
               if \<not> has_noarch then add_repodata empty_fn_dict ''noarch'' st2
               else (Inr (), st2)))"

section \<open>Properties of the package set\<close>

lemma map_of_append_entry:
  "map_of (append_entry k fn m) =
     (map_of m)(k \<mapsto> (case map_of m k of None \<Rightarrow> [fn] | Some fs \<Rightarrow> fs @ [fn]))"
  by (induction m) (auto simp: fun_eq_iff)

lemma keys_append_entry: "set (map fst (append_entry k fn m)) = insert k (set (map fst m))"
  by (induction m) (force simp: image_iff)+

lemma distinct_append_entry:
  "distinct (map fst m) \<Longrightarrow> distinct (map fst (append_entry k fn m))"
proof (induction m)
  case Nil
  then show ?case by simp
next
  case (Cons p m)
  obtain k' fs where p: "p = (k', fs)" by (cases p)
  have "set (map fst (append_entry k fn m)) = insert k (set (map fst m))"
    by (rule keys_append_entry)
  with Cons p show ?case by auto
qed

lemma distinct_map_name: "distinct (map fst (map_name nd dists))"
  unfolding map_name_def
  by (induction dists rule: rev_induct) (simp_all add: distinct_append_entry)

lemma map_of_map_name:
  "map_of (map_name nd dists) k =
     (if k \<in> nd ` set dists then Some (filter (\<lambda>fn. nd fn = k) dists) else None)"
  unfolding map_name_def
proof (induction dists rule: rev_induct)
  case Nil
  then show ?case by simp
next
  case (snoc x xs)
  have e: "k \<notin> nd ` set xs \<Longrightarrow> filter (\<lambda>fn. nd fn = k) xs = []"
    by (auto simp: filter_empty_conv)
  from snoc e show ?case
    by (auto simp: map_of_append_entry)
qed

lemma map_name_entry:
  "(k, fs) \<in> set (map_name nd dists) \<longleftrightarrow>
     k \<in> nd ` set dists \<and> fs = filter (\<lambda>fn. nd fn = k) dists"
proof -
  have "(k, fs) \<in> set (map_name nd dists) \<longleftrightarrow> map_of (map_name nd dists) k = Some fs"
    using distinct_map_name [of nd dists] by simp
  then show ?thesis by (auto simp: map_of_map_name)
qed

lemma distinct_map_filter_le:
  "distinct (map f xs) \<longleftrightarrow> (\<forall>k. length (filter (\<lambda>x. f x = k) xs) \<le> 1)"
proof (induction xs)
  case Nil
  then show ?case by simp
next
  case (Cons a xs)
  show ?case
  proof
    assume d: "distinct (map f (a # xs))"
    then have "filter (\<lambda>x. f x = f a) xs = []"
      by (simp add: filter_empty_conv image_iff) metis
    with d Cons show "\<forall>k. length (filter (\<lambda>x. f x = k) (a # xs)) \<le> 1" by auto
  next
    assume h: "\<forall>k. length (filter (\<lambda>x. f x = k) (a # xs)) \<le> 1"
    then have "length (filter (\<lambda>x. f x = f a) (a # xs)) \<le> 1" by blast
    then have "filter (\<lambda>x. f x = f a) xs = []" by simp
    then have "f a \<notin> f ` set xs" by (auto simp: filter_empty_conv)
    moreover have "\<forall>k. length (filter (\<lambda>x. f x = k) xs) \<le> 1"
    proof
      fix k
      from h have "length (filter (\<lambda>x. f x = k) (a # xs)) \<le> 1" by blast
      then show "length (filter (\<lambda>x. f x = k) xs) \<le> 1" by (simp split: if_splits)
    qed
    ultimately show "distinct (map f (a # xs))" using Cons by simp
  qed
qed

lemma check_duplicates_ok:
  "check_duplicates nd dists = Inr () \<longleftrightarrow> distinct (map nd dists)"
proof -
  have "check_duplicates nd dists = Inr () \<longleftrightarrow>
        (\<forall>p \<in> set (map_name nd dists). \<not> length (snd p) > 1)"
  proof -
    have "check_duplicates nd dists = Inr () \<longleftrightarrow>
          find (\<lambda>(name, files). length files > 1) (map_name nd dists) = None"
      by (auto simp: check_duplicates_def split: option.splits)
    then show ?thesis by (auto simp: find_None_iff)
  qed
  also have "\<dots> \<longleftrightarrow> (\<forall>k. length (filter (\<lambda>fn. nd fn = k) dists) \<le> 1)"
  proof
    assume h: "\<forall>p \<in> set (map_name nd dists). \<not> length (snd p) > 1"
    show "\<forall>k. length (filter (\<lambda>fn. nd fn = k) dists) \<le> 1"
    proof
      fix k
      show "length (filter (\<lambda>fn. nd fn = k) dists) \<le> 1"
      proof (cases "k \<in> nd ` set dists")
        case True
        then have "(k, filter (\<lambda>fn. nd fn = k) dists) \<in> set (map_name nd dists)"
          by (simp add: map_name_entry)
        with h show ?thesis by fastforce
      next
        case False
        then have "filter (\<lambda>fn. nd fn = k) dists = []"
          by (auto simp: filter_empty_conv)
        then show ?thesis by simp
      qed
    qed
  next
    assume h: "\<forall>k. length (filter (\<lambda>fn. nd fn = k) dists) \<le> 1"
    show "\<forall>p \<in> set (map_name nd dists). \<not> length (snd p) > 1"
    proof
      fix p assume "p \<in> set (map_name nd dists)"
      then have "snd p = filter (\<lambda>fn. nd fn = fst p) dists"
        using map_name_entry [of "fst p" "snd p" nd dists] by simp
      with h show "\<not> length (snd p) > 1" by (simp add: not_less)
    qed
  qed
  also have "\<dots> \<longleftrightarrow> distinct (map nd dists)"
    by (rule distinct_map_filter_le [symmetric])
  finally show ?thesis .
qed

lemma check_duplicates_error:
  assumes "check_duplicates nd dists = Inl e"
  shows "\<exists>name. e = ListedMultipleTimes name (filter (\<lambda>fn. nd fn = name) dists)
           \<and> name \<in> nd ` set dists
           \<and> 1 < length (filter (\<lambda>fn. nd fn = name) dists)"
proof -
  from assms obtain name files where
    f: "find (\<lambda>(name, files). length files > 1) (map_name nd dists) = Some (name, files)"
    and e: "e = ListedMultipleTimes name files"
    by (auto simp: check_duplicates_def split: option.splits prod.splits)
  from f have "(name, files) \<in> set (map_name nd dists)" and "length files > 1"
    by (auto simp: find_Some_iff in_set_conv_nth)
  then show ?thesis using e by (auto simp: map_name_entry)
qed

lemma check_duplicates_cases:
  "(\<exists>e. check_duplicates nd dists = Inl e) \<or> check_duplicates nd dists = Inr ()"
  by (cases "check_duplicates nd dists") auto

lemma mset_move_python_first: "mset (move_python_first nd dists) = mset dists"
  by (auto simp: move_python_first_def find_Some_iff split: option.splits)

lemma distinct_map_mset_cong:
  "mset xs = mset ys \<Longrightarrow> distinct (map f xs) = distinct (map f ys)"
  by (metis mset_eq_imp_distinct_iff mset_map)

lemma move_python_first_Nil [simp]: "move_python_first nd dists = [] \<longleftrightarrow> dists = []"
  by (metis mset_move_python_first mset_zero_iff)

lemma hd_move_python_first:
  "dists \<noteq> [] \<Longrightarrow> nd (hd (move_python_first nd dists)) = ''python'' \<longleftrightarrow> ''python'' \<in> nd ` set dists"
proof -
  assume ne: "dists \<noteq> []"
  show ?thesis
  proof (cases "find (\<lambda>dist. nd dist = ''python'') dists")
    case None
    then have np: "''python'' \<notin> nd ` set dists" by (auto simp: find_None_iff)
    with ne have "nd (hd dists) \<noteq> ''python''" by (cases dists) auto
    with None np show ?thesis by (simp add: move_python_first_def)
  next
    case (Some d)
    then have "nd d = ''python''" and "d \<in> set dists"
      by (auto simp: find_Some_iff)
    then have "''python'' \<in> nd ` set dists" by (metis image_eqI)
    with Some \<open>nd d = ''python''\<close> show ?thesis by (simp add: move_python_first_def)
  qed
qed

lemma check_dists_unfold:
  "check_dists nd dists =
     (if dists = [] then Inl NoPackages
      else case check_duplicates nd dists of
        Inl e \<Rightarrow> Inl e
      | Inr _ \<Rightarrow> if nd (hd dists) = ''python'' then Inr () else Inl AssertionError)"
  by (cases dists) (simp_all add: check_dists_def)

lemma check_dists_ok:
  "check_dists nd dists = Inr () \<longleftrightarrow>
     dists \<noteq> [] \<and> distinct (map nd dists) \<and> nd (hd dists) = ''python''"
  using check_duplicates_ok [of nd dists]
  by (auto simp: check_dists_unfold split: sum.splits)

lemma check_dists_NoPackages:
  "check_dists nd dists = Inl NoPackages \<longleftrightarrow> dists = []"
  using check_duplicates_error [of nd dists NoPackages]
  by (auto simp: check_dists_unfold split: sum.splits)

lemma check_dists_AssertionError:
  "check_dists nd dists = Inl AssertionError \<longleftrightarrow>
     dists \<noteq> [] \<and> distinct (map nd dists) \<and> nd (hd dists) \<noteq> ''python''"
  using check_duplicates_error [of nd dists AssertionError] check_duplicates_ok [of nd dists]
  by (auto simp: check_dists_unfold split: sum.splits)

lemma mset_order_dists: "mset (order_dists dep nd dists) = mset dists"
  by (simp add: order_dists_def mset_move_python_first)

lemma order_dists_Nil: "order_dists dep nd dists = [] \<longleftrightarrow> dists = []"
  by (metis mset_order_dists mset_zero_iff)

lemma distinct_order_dists:
  "distinct (map nd (order_dists dep nd dists)) = distinct (map nd dists)"
  by (rule distinct_map_mset_cong) (rule mset_order_dists)

lemma hd_order_dists:
  assumes "dists \<noteq> []"
  shows "nd (hd (order_dists dep nd dists)) = ''python'' \<longleftrightarrow> ''python'' \<in> nd ` set dists"
proof -
  let ?pre = "if \<not> dep then sort dists else dists"
  have s: "set ?pre = set dists" by simp
  from assms have "?pre \<noteq> []" by (metis mset_sort mset_zero_iff)
  then have "nd (hd (move_python_first nd ?pre)) = ''python'' \<longleftrightarrow> ''python'' \<in> nd ` set ?pre"
    by (rule hd_move_python_first)
  with s show ?thesis by (simp only: order_dists_def)
qed

lemma finalize_Inr:
  "finalize dep nd dists = Inr final \<longleftrightarrow>
     final = order_dists dep nd dists \<and> dists \<noteq> [] \<and> distinct (map nd dists)
       \<and> ''python'' \<in> nd ` set dists"
proof -
  have "finalize dep nd dists = Inr final \<longleftrightarrow>
        final = order_dists dep nd dists \<and> check_dists nd (order_dists dep nd dists) = Inr ()"
    by (auto simp: finalize_def split: sum.splits)
  also have "\<dots> \<longleftrightarrow> final = order_dists dep nd dists \<and> dists \<noteq> [] \<and> distinct (map nd dists)
       \<and> ''python'' \<in> nd ` set dists"
    using hd_order_dists [of dists nd dep]
    by (auto simp: check_dists_ok order_dists_Nil distinct_order_dists)
  finally show ?thesis .
qed

lemma finalize_Inl:
  "finalize dep nd dists = Inl e \<longleftrightarrow> check_dists nd (order_dists dep nd dists) = Inl e"
  by (auto simp: finalize_def split: sum.splits)

text \<open>
  Claim C3. Whenever finalization completes, an entry of the finalized sequence whose
  logical name is python stands at index 0.
\<close>

theorem finalize_python_first:
  assumes "finalize dependency_order nd dists = Inr final"
    and "i < length final"
    and "nd (final ! i) = ''python''"
  shows "i = 0"
proof -
  from assms(1) have ok: "check_dists nd final = Inr ()"
    by (auto simp: finalize_def split: sum.splits)
  then have ne: "final \<noteq> []" and d: "distinct (map nd final)" and h: "nd (hd final) = ''python''"
    by (simp_all add: check_dists_ok)
  from ne h have "map nd final ! 0 = ''python''" by (simp add: hd_conv_nth)
  moreover from assms(2,3) have "map nd final ! i = ''python''" by simp
  moreover from ne have "0 < length (map nd final)" by simp
  moreover from assms(2) have "i < length (map nd final)" by simp
  ultimately show "i = 0" using d by (metis nth_eq_iff_index_eq)
qed

theorem finalize_python_first_witness:
  "finalize False name_dist [''numpy-1.0-0.tar.bz2'', ''python-3.7-0.tar.bz2'']
     = Inr [''python-3.7-0.tar.bz2'', ''numpy-1.0-0.tar.bz2'']
   \<and> name_dist ([''python-3.7-0.tar.bz2'', ''numpy-1.0-0.tar.bz2''] ! 0) = ''python''
   \<and> name_dist ([''python-3.7-0.tar.bz2'', ''numpy-1.0-0.tar.bz2''] ! 1) \<noteq> ''python''"
proof -
  have run: "finalize False name_dist [''numpy-1.0-0.tar.bz2'', ''python-3.7-0.tar.bz2'']
     = Inr [''python-3.7-0.tar.bz2'', ''numpy-1.0-0.tar.bz2'']"
    by code_simp
  have len: "(1::nat) < length [''python-3.7-0.tar.bz2'', ''numpy-1.0-0.tar.bz2'']" by simp
  have first: "name_dist ([''python-3.7-0.tar.bz2'', ''numpy-1.0-0.tar.bz2''] ! 0) = ''python''"
    by code_simp
  have "name_dist ([''python-3.7-0.tar.bz2'', ''numpy-1.0-0.tar.bz2''] ! 1) \<noteq> ''python''"
    using finalize_python_first [OF run len] by auto
  with run first show ?thesis by simp
qed

text \<open>
  Claim C4. A finalized package set has pairwise distinct logical names; the duplicate
  check passes exactly on such sets, and on any other set it fails with the error that
  names one colliding logical name and lists every file name of the set with that name.
\<close>

theorem finalized_names_unique:
  "(\<forall>final. finalize dependency_order nd dists = Inr final \<longrightarrow> distinct (map nd final))
   \<and> (check_duplicates nd dists = Inr () \<longleftrightarrow> distinct (map nd dists))
   \<and> (\<not> distinct (map nd dists) \<longrightarrow>
        (\<exists>name. 1 < length (filter (\<lambda>fn. nd fn = name) dists)
           \<and> check_duplicates nd dists
               = Inl (ListedMultipleTimes name (filter (\<lambda>fn. nd fn = name) dists))))"
proof (intro conjI allI impI)
  fix final
  assume "finalize dependency_order nd dists = Inr final"
  then show "distinct (map nd final)"
    by (simp add: finalize_Inr distinct_order_dists)
next
  show "check_duplicates nd dists = Inr () \<longleftrightarrow> distinct (map nd dists)"
    by (rule check_duplicates_ok)
next
  assume "\<not> distinct (map nd dists)"
  then have "check_duplicates nd dists \<noteq> Inr ()"
    by (simp add: check_duplicates_ok)
  then obtain e where e: "check_duplicates nd dists = Inl e"
    using check_duplicates_cases [of nd dists] by blast
  from check_duplicates_error [OF e] e
  show "\<exists>name. 1 < length (filter (\<lambda>fn. nd fn = name) dists)
           \<and> check_duplicates nd dists
               = Inl (ListedMultipleTimes name (filter (\<lambda>fn. nd fn = name) dists))"
    by auto
qed

theorem finalized_names_unique_witness:
  "finalize False name_dist [''numpy-1.0-0.tar.bz2'', ''python-3.7-0.tar.bz2'']
     = Inr [''python-3.7-0.tar.bz2'', ''numpy-1.0-0.tar.bz2'']
   \<and> distinct (map name_dist [''python-3.7-0.tar.bz2'', ''numpy-1.0-0.tar.bz2''])
   \<and> \<not> distinct (map name_dist
         [''numpy-1.0-0.tar.bz2'', ''python-3.7-0.tar.bz2'', ''numpy-1.1-0.tar.bz2''])
   \<and> check_duplicates name_dist
         [''numpy-1.0-0.tar.bz2'', ''python-3.7-0.tar.bz2'', ''numpy-1.1-0.tar.bz2'']
       = Inl (ListedMultipleTimes ''numpy'' [''numpy-1.0-0.tar.bz2'', ''numpy-1.1-0.tar.bz2''])"
proof -
  have run: "finalize False name_dist [''numpy-1.0-0.tar.bz2'', ''python-3.7-0.tar.bz2'']
     = Inr [''python-3.7-0.tar.bz2'', ''numpy-1.0-0.tar.bz2'']"
    by code_simp
  have d: "distinct (map name_dist [''python-3.7-0.tar.bz2'', ''numpy-1.0-0.tar.bz2''])"
    using finalized_names_unique
      [of False name_dist "[''numpy-1.0-0.tar.bz2'', ''python-3.7-0.tar.bz2'']"] run
    by blast
  have dup: "check_duplicates name_dist
         [''numpy-1.0-0.tar.bz2'', ''python-3.7-0.tar.bz2'', ''numpy-1.1-0.tar.bz2'']
       = Inl (ListedMultipleTimes ''numpy'' [''numpy-1.0-0.tar.bz2'', ''numpy-1.1-0.tar.bz2''])"
    by code_simp
  have "\<not> distinct (map name_dist
         [''numpy-1.0-0.tar.bz2'', ''python-3.7-0.tar.bz2'', ''numpy-1.1-0.tar.bz2''])"
    using finalized_names_unique [of False name_dist
         "[''numpy-1.0-0.tar.bz2'', ''python-3.7-0.tar.bz2'', ''numpy-1.1-0.tar.bz2'']"] dup
    by simp
  with run d dup show ?thesis by blast
qed

text \<open>
  Claim C7, as the code has it. Finalization fails with the empty-set error exactly on
  the empty set. It fails with the invariant error (the assertion of
  \<^verbatim>\<open>check_dists\<close>) exactly on a non-empty set without duplicated logical names that
  contains no python entry. It passes exactly on a non-empty set without duplicated
  logical names that contains a python entry.
\<close>

theorem finalize_failures:
  "(finalize dependency_order nd dists = Inl NoPackages \<longleftrightarrow> dists = [])
   \<and> (finalize dependency_order nd dists = Inl AssertionError \<longleftrightarrow>
        dists \<noteq> [] \<and> distinct (map nd dists) \<and> ''python'' \<notin> nd ` set dists)
   \<and> ((\<exists>final. finalize dependency_order nd dists = Inr final) \<longleftrightarrow>
        dists \<noteq> [] \<and> distinct (map nd dists) \<and> ''python'' \<in> nd ` set dists)"
proof (intro conjI)
  show "finalize dependency_order nd dists = Inl NoPackages \<longleftrightarrow> dists = []"
    by (simp add: finalize_Inl check_dists_NoPackages order_dists_Nil)
next
  show "finalize dependency_order nd dists = Inl AssertionError \<longleftrightarrow>
        dists \<noteq> [] \<and> distinct (map nd dists) \<and> ''python'' \<notin> nd ` set dists"
    using hd_order_dists [of dists nd dependency_order]
    by (auto simp: finalize_Inl check_dists_AssertionError order_dists_Nil distinct_order_dists)
next
  show "(\<exists>final. finalize dependency_order nd dists = Inr final) \<longleftrightarrow>
        dists \<noteq> [] \<and> distinct (map nd dists) \<and> ''python'' \<in> nd ` set dists"
    by (simp add: finalize_Inr)
qed

theorem finalize_failures_witness:
  "finalize True name_dist [] = Inl NoPackages
   \<and> finalize True name_dist [''zlib-1.2-0.tar.bz2'', ''numpy-1.0-0.tar.bz2''] = Inl AssertionError
   \<and> ''python'' \<notin> name_dist ` set [''zlib-1.2-0.tar.bz2'', ''numpy-1.0-0.tar.bz2'']
   \<and> (\<exists>final. finalize True name_dist [''zlib-1.2-0.tar.bz2'', ''python-3.7-0.tar.bz2''] = Inr final)"
proof -
  have a: "finalize True name_dist [] = Inl NoPackages"
    using finalize_failures [of True name_dist "[]"] by simp
  have b: "finalize True name_dist [''zlib-1.2-0.tar.bz2'', ''numpy-1.0-0.tar.bz2''] = Inl AssertionError"
    by code_simp
  have c: "''python'' \<notin> name_dist ` set [''zlib-1.2-0.tar.bz2'', ''numpy-1.0-0.tar.bz2'']"
    using finalize_failures [of True name_dist "[''zlib-1.2-0.tar.bz2'', ''numpy-1.0-0.tar.bz2'']"] b
    by simp
  have d: "finalize True name_dist [''zlib-1.2-0.tar.bz2'', ''python-3.7-0.tar.bz2'']
     = Inr [''python-3.7-0.tar.bz2'', ''zlib-1.2-0.tar.bz2'']"
    by code_simp
  from a b c d show ?thesis by simp
qed

text \<open>
  Claim C7 as stated lets a non-empty set without a python entry pass. The code rejects
  it: the assertion of \<^verbatim>\<open>check_dists\<close> asks for python in front whether or not the set
  contains one.
\<close>

theorem finalize_without_python_fails:
  "finalize False name_dist [''numpy-1.0-0.tar.bz2''] = Inl AssertionError"
  by code_simp

section \<open>Properties of the parser of package lines\<close>


































section \<open>Properties of the header\<close>

lemma replace_length:
  "old \<noteq> [] \<Longrightarrow>
     length (replace s old new) + count_str s old * length old
       = length s + count_str s old * length new"
proof (induction s old new rule: replace.induct)
  case (1 s old new)
  show ?case
  proof (cases "s = []")
    case True
    with 1(3) show ?thesis
      by (subst replace.simps, subst (1 2) count_str.simps) simp
  next
    case ne: False
    show ?thesis
    proof (cases "prefix old s")
      case True
      then have len: "length old \<le> length s" by (rule prefix_length_le)
      from 1(1) [OF 1(3) ne True 1(3)]
      have ih: "length (replace (drop (length old) s) old new)
                  + count_str (drop (length old) s) old * length old
                = length (drop (length old) s) + count_str (drop (length old) s) old * length new" .
      have r: "replace s old new = new @ replace (drop (length old) s) old new"
        using 1(3) ne True by (subst replace.simps) simp
      have c: "count_str s old = 1 + count_str (drop (length old) s) old"
        using 1(3) ne True by (subst count_str.simps) simp
      from ih len show ?thesis unfolding r c by simp
    next
      case False
      from 1(2) [OF 1(3) ne False 1(3)]
      have ih: "length (replace (tl s) old new) + count_str (tl s) old * length old
                = length (tl s) + count_str (tl s) old * length new" .
      have r: "replace s old new = hd s # replace (tl s) old new"
        using 1(3) ne False by (subst replace.simps) simp
      have c: "count_str s old = count_str (tl s) old"
        using 1(3) ne False by (subst count_str.simps) simp
      from ih ne show ?thesis unfolding r c by (cases s) simp_all
    qed
  qed
qed


lemma replace_absent:
  assumes "old \<noteq> []" and "count_str s old = 0"
  shows "length (replace s old new) = length s"
  using replace_length [OF assms(1), of s new] assms(2) by simp

lemma length_str_nat_pos: "0 < length (str_nat n)"
  by (subst str_nat.simps) simp


lemma length_str_nat_gt: "10 ^ w \<le> n \<Longrightarrow> w < length (str_nat n)"
proof (induction w arbitrary: n)
  case 0
  show ?case by (rule length_str_nat_pos)
next
  case (Suc w)
  have t: "(10::nat) \<le> 10 * 10 ^ w" by simp
  from Suc.prems have "10 * 10 ^ w \<le> n" by simp
  with t have ge: "10 \<le> n" by (rule order_trans)
  from Suc.prems have "10 ^ w \<le> n div 10"
    by (simp add: Suc_leI div_greater_zero_iff less_eq_div_iff_mult_less_eq mult.commute)
  from Suc.IH [OF this] ge show ?case by (subst str_nat.simps) simp
qed

lemma length_zero_pad: "length (zero_pad w n) = max w (length (str_nat n))"
  by (simp add: zero_pad_def)


lemma length_zero_pad_overflow: "10 ^ w \<le> n \<Longrightarrow> w < length (zero_pad w n)"
  using length_str_nat_gt [of w n] by (simp add: length_zero_pad)














section \<open>Properties of the installer file\<close>


lemma length_encode_utf8:
  "length (encode_utf8 s) = length s + length (filter (\<lambda>c. \<not> is_ascii c) s)"
  by (induction s) (simp_all add: encode_utf8_def utf8_char_def)

lemma fi_read_Nil:
  "fi_read fs path pos = [] \<longleftrightarrow> drop pos (case files fs path of None \<Rightarrow> [] | Some c \<Rightarrow> c) = []"
  by (simp add: fi_read_def)
















section \<open>Properties of the fetch phase\<close>

lemma with_slash_suffix: "suffix ''/'' (pkg_channel (with_slash p))"
  by (simp add: with_slash_def suffix_def)

lemma with_slash_md5: "pkg_md5 (with_slash p) = pkg_md5 p"
  by (simp add: with_slash_def)

lemma fetch_dist_mismatch:
  assumes "lookup_pkginfo fi urls dist (index st) = Inr p"
    and "truthy (md5s dist)" and "the (md5s dist) \<noteq> pkg_md5 p"
  shows "\<exists>st'. fetch_dist fnd fi fp urls md5s dist st = (Inl (MD5Mismatch (fnd dist)), st')
           \<and> fetched st' = fetched st \<and> cache st' = cache st"
  using assms
  by (simp add: fetch_dist_def Let_def with_slash_suffix with_slash_md5)

lemma fetch_dist_cached:
  assumes "lookup_pkginfo fi urls dist (index st) = Inr p"
    and "cache st (fnd dist) = Some (pkg_md5 p)"
  shows "fetched (snd (fetch_dist fnd fi fp urls md5s dist st)) = fetched st
     \<and> (fst (fetch_dist fnd fi fp urls md5s dist st) = Inr ()
          \<or> (truthy (md5s dist) \<and> the (md5s dist) \<noteq> pkg_md5 p))"
  using assms
  by (auto simp: fetch_dist_def Let_def with_slash_suffix with_slash_md5)

lemma fetch_dist_fetched:
  "fetched (snd (fetch_dist fnd fi fp urls md5s dist st)) = fetched st
   \<or> fetched (snd (fetch_dist fnd fi fp urls md5s dist st)) = fetched st @ [dist]"
  by (auto simp: fetch_dist_def Let_def split: sum.splits prod.splits)

lemma fetch_dist_index_md5:
  "map_option pkg_md5 (index (snd (fetch_dist fnd fi fp urls md5s dist st)) x)
     = map_option pkg_md5 (index st x)"
proof (cases "lookup_pkginfo fi urls dist (index st)")
  case (Inl e)
  then show ?thesis by (simp add: fetch_dist_def Let_def)
next
  case (Inr p)
  have "truthy (urls dist) \<or> index st dist = Some p"
    using Inr by (auto simp: lookup_pkginfo_def split: option.splits if_splits)
  then have "map_option pkg_md5 (if x = dist \<and> \<not> truthy (urls dist) then Some (with_slash p) else index st x)
       = map_option pkg_md5 (index st x)"
    by (auto simp: with_slash_md5)
  with Inr show ?thesis
    by (auto simp: fetch_dist_def Let_def with_slash_md5 split: prod.splits)
qed

lemma lookup_pkginfo_md5_cong:
  assumes "\<And>x. map_option pkg_md5 (idx' x) = map_option pkg_md5 (idx x)"
    and "lookup_pkginfo fi urls dist idx = Inr p"
  shows "\<exists>p'. lookup_pkginfo fi urls dist idx' = Inr p' \<and> pkg_md5 p' = pkg_md5 p"
proof (cases "truthy (urls dist)")
  case True
  with assms(2) have "lookup_pkginfo fi urls dist idx' = Inr p"
    by (simp add: lookup_pkginfo_def)
  then show ?thesis by blast
next
  case False
  with assms(2) have i: "idx dist = Some p"
    by (auto simp: lookup_pkginfo_def split: option.splits)
  from assms(1) [of dist] i obtain p' where "idx' dist = Some p'" and "pkg_md5 p' = pkg_md5 p"
    by (cases "idx' dist") auto
  with False show ?thesis by (simp add: lookup_pkginfo_def)
qed

lemma fetch_loop_append:
  "fetch_loop fnd fi fp urls md5s (pre @ post) st =
     (case fetch_loop fnd fi fp urls md5s pre st of
        (Inl e, st') \<Rightarrow> (Inl e, st')
      | (Inr _, st') \<Rightarrow> fetch_loop fnd fi fp urls md5s post st')"
  by (induction pre arbitrary: st) (auto split: prod.splits sum.splits)

lemma fetch_loop_mismatch_reached:
  assumes "fst (fetch_loop fnd fi fp urls md5s pre st) = Inr ()"
    and "lookup_pkginfo fi urls dist (index (snd (fetch_loop fnd fi fp urls md5s pre st))) = Inr p"
    and "truthy (md5s dist)" and "the (md5s dist) \<noteq> pkg_md5 p"
  shows "fst (fetch_loop fnd fi fp urls md5s (pre @ dist # post) st) = Inl (MD5Mismatch (fnd dist))
     \<and> fetched (snd (fetch_loop fnd fi fp urls md5s (pre @ dist # post) st))
         = fetched (snd (fetch_loop fnd fi fp urls md5s pre st))
     \<and> cache (snd (fetch_loop fnd fi fp urls md5s (pre @ dist # post) st))
         = cache (snd (fetch_loop fnd fi fp urls md5s pre st))"
proof -
  obtain st1 where r: "fetch_loop fnd fi fp urls md5s pre st = (Inr (), st1)"
    using assms(1) by (cases "fetch_loop fnd fi fp urls md5s pre st") auto
  with assms(2) have l: "lookup_pkginfo fi urls dist (index st1) = Inr p" by simp
  from fetch_dist_mismatch [of fi urls dist st1 p md5s fnd fp] l assms(3,4) obtain st2 where
    "fetch_dist fnd fi fp urls md5s dist st1 = (Inl (MD5Mismatch (fnd dist)), st2)"
    "fetched st2 = fetched st1" "cache st2 = cache st1"
    by blast
  with r show ?thesis by (simp add: fetch_loop_append)
qed

lemma fetch_loop_cache_hit_reached:
  assumes "fst (fetch_loop fnd fi fp urls md5s pre st) = Inr ()"
    and "lookup_pkginfo fi urls dist (index (snd (fetch_loop fnd fi fp urls md5s pre st))) = Inr p"
    and "cache (snd (fetch_loop fnd fi fp urls md5s pre st)) (fnd dist) = Some (pkg_md5 p)"
  shows "fetched (snd (fetch_loop fnd fi fp urls md5s (pre @ [dist]) st))
         = fetched (snd (fetch_loop fnd fi fp urls md5s pre st))
     \<and> (fst (fetch_loop fnd fi fp urls md5s (pre @ [dist]) st) = Inr ()
          \<or> (truthy (md5s dist) \<and> the (md5s dist) \<noteq> pkg_md5 p))"
proof -
  obtain st1 where r: "fetch_loop fnd fi fp urls md5s pre st = (Inr (), st1)"
    using assms(1) by (cases "fetch_loop fnd fi fp urls md5s pre st") auto
  with assms(2,3) have l: "lookup_pkginfo fi urls dist (index st1) = Inr p"
    and c: "cache st1 (fnd dist) = Some (pkg_md5 p)" by simp_all
  obtain r2 st2 where s: "fetch_dist fnd fi fp urls md5s dist st1 = (r2, st2)"
    by (cases "fetch_dist fnd fi fp urls md5s dist st1")
  from fetch_dist_cached [of fi urls dist st1 p fnd fp md5s] l c s
  have "fetched st2 = fetched st1"
    and "r2 = Inr () \<or> (truthy (md5s dist) \<and> the (md5s dist) \<noteq> pkg_md5 p)"
    by simp_all
  with r s show ?thesis by (auto simp: fetch_loop_append split: sum.splits)
qed

lemma fetch_loop_never_fetches_mismatch:
  assumes "dist \<in> set dists" and "truthy (md5s dist)"
  shows "\<exists>p. lookup_pkginfo fi urls dist (index st) = Inr p \<and> the (md5s dist) \<noteq> pkg_md5 p
     \<Longrightarrow> dist \<notin> set (fetched st)
     \<Longrightarrow> fst (fetch_loop fnd fi fp urls md5s dists st) \<noteq> Inr ()
         \<and> dist \<notin> set (fetched (snd (fetch_loop fnd fi fp urls md5s dists st)))"
  using assms(1)
proof (induction dists arbitrary: st)
  case Nil
  then show ?case by simp
next
  case (Cons x xs)
  from Cons.prems(1) obtain p where
    l: "lookup_pkginfo fi urls dist (index st) = Inr p" and ne: "the (md5s dist) \<noteq> pkg_md5 p"
    by blast
  show ?case
  proof (cases "x = dist")
    case True
    from fetch_dist_mismatch [of fi urls dist st p md5s fnd fp] l assms(2) ne obtain st' where
      "fetch_dist fnd fi fp urls md5s dist st = (Inl (MD5Mismatch (fnd dist)), st')"
      "fetched st' = fetched st"
      by blast
    with True Cons.prems(2) show ?thesis by simp
  next
    case False
    obtain r st' where s: "fetch_dist fnd fi fp urls md5s x st = (r, st')"
      by (cases "fetch_dist fnd fi fp urls md5s x st")
    have f: "dist \<notin> set (fetched st')"
      using fetch_dist_fetched [of fnd fi fp urls md5s x st] s False Cons.prems(2) by auto
    show ?thesis
    proof (cases r)
      case (Inl e)
      with s f show ?thesis by simp
    next
      case (Inr u)
      have "\<And>y. map_option pkg_md5 (index st' y) = map_option pkg_md5 (index st y)"
        using fetch_dist_index_md5 [of fnd fi fp urls md5s x st] s by simp
      from lookup_pkginfo_md5_cong [OF this l] ne
      have l': "\<exists>p. lookup_pkginfo fi urls dist (index st') = Inr p \<and> the (md5s dist) \<noteq> pkg_md5 p"
        by auto
      from Cons.prems(3) False have "dist \<in> set xs" by simp
      from Cons.IH [OF l' f this] s Inr show ?thesis by simp
    qed
  qed
qed

text \<open>
  Claim C5. When the fetch phase reaches a distribution whose inline checksum differs
  from the checksum of its authoritative record, it fails with the checksum-mismatch
  error, and \<^verbatim>\<open>fetch_pkg\<close> has been called for no distribution from that one on. A
  distribution with such a checksum is never passed to \<^verbatim>\<open>fetch_pkg\<close>, and the phase
  never succeeds. When the phase reaches a distribution whose file in the download
  directory has the checksum of the authoritative record, \<^verbatim>\<open>fetch_pkg\<close> is not called
  for it, and without a checksum mismatch the phase goes on.
\<close>

theorem fetch_checksum_and_cache:
  "(fst (fetch fnd fi fp urls md5s pre st) = Inr ()
      \<and> lookup_pkginfo fi urls dist (index (snd (fetch fnd fi fp urls md5s pre st))) = Inr p
      \<and> truthy (md5s dist) \<and> the (md5s dist) \<noteq> pkg_md5 p \<longrightarrow>
      fst (fetch fnd fi fp urls md5s (pre @ dist # post) st) = Inl (MD5Mismatch (fnd dist))
      \<and> fetched (snd (fetch fnd fi fp urls md5s (pre @ dist # post) st))
          = fetched (snd (fetch fnd fi fp urls md5s pre st)))
   \<and> (dist \<in> set dists \<and> lookup_pkginfo fi urls dist (index st) = Inr p
      \<and> truthy (md5s dist) \<and> the (md5s dist) \<noteq> pkg_md5 p
      \<and> dist \<notin> set (fetched st) \<longrightarrow>
      fst (fetch fnd fi fp urls md5s dists st) \<noteq> Inr ()
      \<and> dist \<notin> set (fetched (snd (fetch fnd fi fp urls md5s dists st))))
   \<and> (fst (fetch fnd fi fp urls md5s pre st) = Inr ()
      \<and> lookup_pkginfo fi urls dist (index (snd (fetch fnd fi fp urls md5s pre st))) = Inr p
      \<and> cache (snd (fetch fnd fi fp urls md5s pre st)) (fnd dist) = Some (pkg_md5 p) \<longrightarrow>
      fetched (snd (fetch fnd fi fp urls md5s (pre @ [dist]) st))
          = fetched (snd (fetch fnd fi fp urls md5s pre st))
      \<and> (fst (fetch fnd fi fp urls md5s (pre @ [dist]) st) = Inr ()
           \<or> (truthy (md5s dist) \<and> the (md5s dist) \<noteq> pkg_md5 p)))"
proof (intro conjI impI)
  assume a: "fst (fetch fnd fi fp urls md5s pre st) = Inr ()
      \<and> lookup_pkginfo fi urls dist (index (snd (fetch fnd fi fp urls md5s pre st))) = Inr p
      \<and> truthy (md5s dist) \<and> the (md5s dist) \<noteq> pkg_md5 p"
  have m: "fst (fetch_loop fnd fi fp urls md5s (pre @ dist # post) (st\<lparr>info_urls := []\<rparr>))
       = Inl (MD5Mismatch (fnd dist))
     \<and> fetched (snd (fetch_loop fnd fi fp urls md5s (pre @ dist # post) (st\<lparr>info_urls := []\<rparr>)))
         = fetched (snd (fetch_loop fnd fi fp urls md5s pre (st\<lparr>info_urls := []\<rparr>)))
     \<and> cache (snd (fetch_loop fnd fi fp urls md5s (pre @ dist # post) (st\<lparr>info_urls := []\<rparr>)))
         = cache (snd (fetch_loop fnd fi fp urls md5s pre (st\<lparr>info_urls := []\<rparr>)))"
    by (rule fetch_loop_mismatch_reached [where p = p]) (use a in \<open>simp_all add: fetch_def\<close>)
  from m show "fst (fetch fnd fi fp urls md5s (pre @ dist # post) st) = Inl (MD5Mismatch (fnd dist))"
    by (simp add: fetch_def)
  from m show "fetched (snd (fetch fnd fi fp urls md5s (pre @ dist # post) st))
          = fetched (snd (fetch fnd fi fp urls md5s pre st))"
    by (simp add: fetch_def)
next
  assume a: "dist \<in> set dists \<and> lookup_pkginfo fi urls dist (index st) = Inr p
      \<and> truthy (md5s dist) \<and> the (md5s dist) \<noteq> pkg_md5 p
      \<and> dist \<notin> set (fetched st)"
  have "fst (fetch_loop fnd fi fp urls md5s dists (st\<lparr>info_urls := []\<rparr>)) \<noteq> Inr ()
         \<and> dist \<notin> set (fetched (snd (fetch_loop fnd fi fp urls md5s dists (st\<lparr>info_urls := []\<rparr>))))"
    by (rule fetch_loop_never_fetches_mismatch) (use a in auto)
  then show "fst (fetch fnd fi fp urls md5s dists st) \<noteq> Inr ()"
    and "dist \<notin> set (fetched (snd (fetch fnd fi fp urls md5s dists st)))"
    by (simp_all add: fetch_def)
next
  assume a: "fst (fetch fnd fi fp urls md5s pre st) = Inr ()
      \<and> lookup_pkginfo fi urls dist (index (snd (fetch fnd fi fp urls md5s pre st))) = Inr p
      \<and> cache (snd (fetch fnd fi fp urls md5s pre st)) (fnd dist) = Some (pkg_md5 p)"
  have m: "fetched (snd (fetch_loop fnd fi fp urls md5s (pre @ [dist]) (st\<lparr>info_urls := []\<rparr>)))
         = fetched (snd (fetch_loop fnd fi fp urls md5s pre (st\<lparr>info_urls := []\<rparr>)))
     \<and> (fst (fetch_loop fnd fi fp urls md5s (pre @ [dist]) (st\<lparr>info_urls := []\<rparr>)) = Inr ()
          \<or> (truthy (md5s dist) \<and> the (md5s dist) \<noteq> pkg_md5 p))"
    by (rule fetch_loop_cache_hit_reached [where p = p]) (use a in \<open>simp_all add: fetch_def\<close>)
  from m show "fetched (snd (fetch fnd fi fp urls md5s (pre @ [dist]) st))
          = fetched (snd (fetch fnd fi fp urls md5s pre st))"
    by (simp add: fetch_def)
  from m show "fst (fetch fnd fi fp urls md5s (pre @ [dist]) st) = Inr ()
           \<or> (truthy (md5s dist) \<and> the (md5s dist) \<noteq> pkg_md5 p)"
    by (simp add: fetch_def)
qed

theorem fetch_checksum_and_cache_witness:
  "fst (fetch (\<lambda>d. d) offline store_pkg Map.empty [''b-1-0.tar.bz2'' \<mapsto> ''cccc'']
          [''a-1-0.tar.bz2'', ''b-1-0.tar.bz2''] example_state) = Inl (MD5Mismatch ''b-1-0.tar.bz2'')
   \<and> fetched (snd (fetch (\<lambda>d. d) offline store_pkg Map.empty [''b-1-0.tar.bz2'' \<mapsto> ''cccc'']
          [''a-1-0.tar.bz2'', ''b-1-0.tar.bz2''] example_state)) = [''a-1-0.tar.bz2'']
   \<and> ''b-1-0.tar.bz2'' \<notin> set (fetched (snd (fetch (\<lambda>d. d) offline store_pkg Map.empty
          [''b-1-0.tar.bz2'' \<mapsto> ''cccc''] [''a-1-0.tar.bz2'', ''b-1-0.tar.bz2''] example_state)))
   \<and> fst (fetch (\<lambda>d. d) offline store_pkg Map.empty Map.empty
          [''a-1-0.tar.bz2'', ''b-1-0.tar.bz2''] example_state) = Inr ()
   \<and> fetched (snd (fetch (\<lambda>d. d) offline store_pkg Map.empty Map.empty
          [''a-1-0.tar.bz2'', ''b-1-0.tar.bz2''] example_state)) = [''a-1-0.tar.bz2'']"
proof -
  let ?a = "''a-1-0.tar.bz2''" and ?b = "''b-1-0.tar.bz2''"
  let ?p = "\<lparr>pkg_channel = ''http://c/linux-64/'', pkg_md5 = ''bbbb''\<rparr>"
  let ?bad = "[?b \<mapsto> ''cccc'']"
  let ?none = "Map.empty :: string \<rightharpoonup> string"
  have pre1: "fst (fetch (\<lambda>d. d) offline store_pkg ?none ?bad [?a] example_state) = Inr ()"
    by code_simp
  have f1: "fetched (snd (fetch (\<lambda>d. d) offline store_pkg ?none ?bad [?a] example_state)) = [?a]"
    by code_simp
  have l1: "lookup_pkginfo offline ?none ?b
      (index (snd (fetch (\<lambda>d. d) offline store_pkg ?none ?bad [?a] example_state))) = Inr ?p"
    by code_simp
  have t1: "truthy (?bad ?b) \<and> the (?bad ?b) \<noteq> pkg_md5 ?p" by code_simp
  have pre2: "fst (fetch (\<lambda>d. d) offline store_pkg ?none ?none [?a] example_state) = Inr ()"
    by code_simp
  have f2: "fetched (snd (fetch (\<lambda>d. d) offline store_pkg ?none ?none [?a] example_state)) = [?a]"
    by code_simp
  have l2: "lookup_pkginfo offline ?none ?b
      (index (snd (fetch (\<lambda>d. d) offline store_pkg ?none ?none [?a] example_state))) = Inr ?p"
    by code_simp
  have t2: "\<not> (truthy (?none ?b) \<and> the (?none ?b) \<noteq> pkg_md5 ?p)" by code_simp
  have c2: "cache (snd (fetch (\<lambda>d. d) offline store_pkg ?none ?none [?a] example_state)) ((\<lambda>d. d) ?b)
      = Some (pkg_md5 ?p)"
    by code_simp
  have l3: "lookup_pkginfo offline ?none ?b (index example_state) = Inr ?p" by code_simp
  have n3: "?b \<in> set [?a, ?b] \<and> ?b \<notin> set (fetched example_state)" by code_simp
  note m = fetch_checksum_and_cache [where fnd = "\<lambda>d. d" and fi = offline and fp = store_pkg
      and urls = ?none and md5s = ?bad and pre = "[?a]" and dist = ?b and post = "[]" and p = ?p
      and st = example_state and dists = "[?a, ?b]"]
  note h = fetch_checksum_and_cache [where fnd = "\<lambda>d. d" and fi = offline and fp = store_pkg
      and urls = ?none and md5s = ?none and pre = "[?a]" and dist = ?b and p = ?p
      and st = example_state]
  from m pre1 l1 t1 have 1: "fst (fetch (\<lambda>d. d) offline store_pkg ?none ?bad ([?a] @ ?b # []) example_state)
      = Inl (MD5Mismatch ?b)"
    and 2: "fetched (snd (fetch (\<lambda>d. d) offline store_pkg ?none ?bad ([?a] @ ?b # []) example_state))
      = fetched (snd (fetch (\<lambda>d. d) offline store_pkg ?none ?bad [?a] example_state))"
    by blast+
  from m l3 t1 n3 have 3: "?b \<notin> set (fetched (snd (fetch (\<lambda>d. d) offline store_pkg ?none ?bad
      [?a, ?b] example_state)))"
    by blast
  from h pre2 l2 c2 t2 have 4: "fst (fetch (\<lambda>d. d) offline store_pkg ?none ?none ([?a] @ [?b]) example_state)
      = Inr ()"
    and 5: "fetched (snd (fetch (\<lambda>d. d) offline store_pkg ?none ?none ([?a] @ [?b]) example_state))
      = fetched (snd (fetch (\<lambda>d. d) offline store_pkg ?none ?none [?a] example_state))"
    by blast+
  from 1 2 3 4 5 f1 f2 show ?thesis by simp
qed

section \<open>Properties of the local repodata\<close>

lemma repodata_loop_fails:
  "items \<noteq> [] \<Longrightarrow> fst (repodata_loop items has_noarch st) = Inl (NameError ''t'')"
  by (cases items) (auto simp: add_repodata_def Let_def)

text \<open>
  Claim C8 on the code. The part of \<^verbatim>\<open>create\<close> that adds the repodata documents never
  completes: whatever the URLs, it ends in an exception. With no URL at all, the
  exception is the \<^verbatim>\<open>NameError\<close> for \<^verbatim>\<open>t\<close> raised by the call
  \<^verbatim>\<open>add_repodata(..., 'noarch')\<close>, and the archive has no member more than before: the
  noarch document is written to the working directory and never added.
\<close>

theorem noarch_repodata_not_added:
  "fst (create_repodata load download_dir urls st) \<noteq> Inr ()
   \<and> fst (create_repodata load download_dir [] st) = Inl (NameError ''t'')
   \<and> archive (snd (create_repodata load download_dir [] st)) = archive st
   \<and> cwd_repodata (snd (create_repodata load download_dir [] st))
       = Some \<lparr>info_subdir = ''noarch'', doc_packages = Map.empty,
               doc_packages_conda = Map.empty, removed = [], repodata_version = 1\<rparr>"
proof (intro conjI)
  show "fst (create_repodata load download_dir urls st) \<noteq> Inr ()"
  proof (cases "local_repodata_loop load download_dir urls [] st")
    case (Pair r st1)
    show ?thesis
    proof (cases r)
      case (Inl e)
      with Pair show ?thesis by (simp add: create_repodata_def)
    next
      case (Inr items)
      show ?thesis
      proof (cases "items = []")
        case True
        with Pair Inr show ?thesis
          by (simp add: create_repodata_def add_repodata_def)
      next
        case False
        from repodata_loop_fails [OF False, of False st1]
        obtain st2 where "repodata_loop items False st1 = (Inl (NameError ''t''), st2)"
          by (cases "repodata_loop items False st1") auto
        with Pair Inr show ?thesis by (simp add: create_repodata_def)
      qed
    qed
  qed
qed (simp_all add: create_repodata_def add_repodata_def empty_fn_dict_def)

end
